theory Spec2Isabelle
  imports Complex_Main
begin

section \<open>Data model\<close>

text \<open>
  A Python \<^verbatim>\<open>str\<close> is a sequence of Unicode code points; a code point is modelled by
  its number. \<open>str\<close> turns an ASCII literal into such a sequence. Python floats are
  modelled by the reals (rounding, infinities and NaN are outside the model) and Python
  integers by \<open>int\<close>.
\<close>

type_synonym codepoint = nat
type_synonym pystr = "codepoint list"

definition str :: "string \<Rightarrow> pystr" where
  "str s = map of_char s"

text \<open>
  The exceptions the program raises or handles. \<open>TranslationFailure\<close> and
  \<open>StopIteration\<close> come from the translator, \<open>IndexError\<close> from indexing a list,
  \<open>ValueError\<close> from the process pool, \<open>RuntimeError\<close> from a generator whose body
  lets a \<open>StopIteration\<close> escape.
\<close>

datatype exn = StopIteration | TranslationFailure | IndexError | ValueError | RuntimeError

text \<open>
  \<^verbatim>\<open>conf.py\<close>: the two search bounds and the alphabet. \<open>ICE_ALPHABET\<close> is a string
  of 32 lowercase Icelandic letters, the ASCII letters a to y without c, q and w and
  the ten letters with code points 225, 240, 233, 237, 243, 250, 253, 254, 230, 246;
  it is written here by its code points, in the order of the source.
\<close>

definition VARIANTS_NUMBER :: int where
  "VARIANTS_NUMBER = 4"

definition VARIANTS_MASS :: real where
  "VARIANTS_MASS = 0.9"

definition ICE_ALPHABET :: pystr where
  "ICE_ALPHABET =
     [97, 225, 98, 100, 240, 101, 233, 102, 103, 104, 105, 237, 106, 107, 108, 109,
      110, 111, 243, 112, 114, 115, 116, 117, 250, 118, 120, 121, 253, 254, 230, 246]"

text \<open>
  \<^verbatim>\<open>class Options(dict)\<close>: the four keys its constructor sets, read as attributes.
\<close>

record options =
  modelFile :: pystr
  encoding :: pystr
  variants_number :: int
  variants_mass :: real

definition Options :: "pystr \<Rightarrow> options" where
  "Options mf = \<lparr>modelFile = mf, encoding = str ''UTF-8'',
     variants_number = VARIANTS_NUMBER, variants_mass = VARIANTS_MASS\<rparr>"

text \<open>
  The translator of the external \<^verbatim>\<open>g2p\<close> package is a parameter. Its search cursor
  \<^verbatim>\<open>n_best\<close> is a mutable object: \<open>nBestNext\<close> returns the cursor as it is after the
  call, next to the candidate, and \<open>logLikTotal\<close> reads the attribute of that name.
  A raised exception is \<open>Inl\<close>.
\<close>

record 's translator =
  nBestInit :: "pystr \<Rightarrow> exn + 's"
  nBestNext :: "'s \<Rightarrow> exn + (real \<times> pystr list \<times> 's)"
  logLikTotal :: "'s \<Rightarrow> real"

text \<open>One entry of \<^verbatim>\<open>output["results"]\<close>, and the dictionary \<^verbatim>\<open>output\<close> that
  \<^verbatim>\<open>predict\<close> yields for a word.\<close>

record hypothesis =
  posterior :: real
  pronunciation :: pystr

record prediction =
  word :: pystr
  results :: "hypothesis list"

text \<open>
  What the module takes from its host: the built-in \<^verbatim>\<open>str.lower\<close>, the environment
  variable read by \<^verbatim>\<open>os.getenv("G2P_MODEL", SEQUITUR_MDL_PATH)\<close>, the path
  \<^verbatim>\<open>SEQUITUR_MDL_PATH\<close> of \<^verbatim>\<open>conf.py\<close> (it depends on where the file lies), and the
  call \<^verbatim>\<open>Translator(SequiturTool.procureModel(options, loadG2PSample))\<close> that builds
  the translator for the given options.
\<close>

record 's host =
  str_lower :: "pystr \<Rightarrow> pystr"
  G2P_MODEL :: "pystr option"
  SEQUITUR_MDL_PATH :: pystr
  procureModel :: "options \<Rightarrow> 's translator"

section \<open>Strings\<close>

text \<open>\<^verbatim>\<open>sep.join(xs)\<close>.\<close>

fun join :: "pystr \<Rightarrow> pystr list \<Rightarrow> pystr" where
  "join sep [] = []"
| "join sep [x] = x"
| "join sep (x # y # ys) = x @ sep @ join sep (y # ys)"

text \<open>\<^verbatim>\<open>str.isspace\<close> on one code point: the whitespace of \<^verbatim>\<open>strip()\<close> and
  \<^verbatim>\<open>split()\<close> without arguments.\<close>

definition isspace :: "codepoint \<Rightarrow> bool" where
  "isspace c \<longleftrightarrow>
     (9 \<le> c \<and> c \<le> 13) \<or> (28 \<le> c \<and> c \<le> 32) \<or> c = 133 \<or> c = 160 \<or> c = 5760 \<or>
     (8192 \<le> c \<and> c \<le> 8202) \<or> c = 8232 \<or> c = 8233 \<or> c = 8239 \<or> c = 8287 \<or>
     c = 12288"

text \<open>\<^verbatim>\<open>s.strip()\<close>.\<close>

definition strip :: "pystr \<Rightarrow> pystr" where
  "strip s = rev (dropWhile isspace (rev (dropWhile isspace s)))"

text \<open>\<^verbatim>\<open>s.split()\<close>: the maximal runs of non-whitespace, in order; \<open>cur\<close> is the
  run being read.\<close>

fun split_from :: "pystr \<Rightarrow> pystr \<Rightarrow> pystr list" where
  "split_from cur [] = (if cur = [] then [] else [cur])"
| "split_from cur (c # cs) =
     (if isspace c then (if cur = [] then split_from [] cs else cur # split_from [] cs)
      else split_from (cur @ [c]) cs)"

definition split :: "pystr \<Rightarrow> pystr list" where
  "split s = split_from [] s"

section \<open>Normalizing a word\<close>

text \<open>
  A compiled pattern of the form \<^verbatim>\<open>[^...]\<close> whose class lists literal characters
  only: it matches any one character that is not listed. \<open>re_sub_empty p w\<close> is
  \<^verbatim>\<open>re.sub(p, '', w)\<close>, which deletes every match. \<open>SUB_PATTERN\<close> is line 30; the
  letters of \<open>ICE_ALPHABET\<close> are literal inside a class (none of them is a backslash,
  a bracket, a caret or a hyphen).
\<close>

datatype pattern = NegatedClass pystr

fun re_sub_empty :: "pattern \<Rightarrow> pystr \<Rightarrow> pystr" where
  "re_sub_empty (NegatedClass cs) w = filter (\<lambda>c. c \<in> set cs) w"

definition SUB_PATTERN :: pattern where
  "SUB_PATTERN = NegatedClass ICE_ALPHABET"

text \<open>Lines 134 to 146; \<open>lower\<close> is \<^verbatim>\<open>str.lower\<close>.\<close>

definition normalize_word :: "(pystr \<Rightarrow> pystr) \<Rightarrow> pystr \<Rightarrow> pattern \<Rightarrow> pystr" where
  "normalize_word lower w sub_pattern = re_sub_empty sub_pattern (lower w)"

text \<open>
  \<^verbatim>\<open>str.lower\<close> on text of Basic Latin and Latin-1 Supplement (code points below
  256), where it acts letter by letter: the capitals are 65 to 90 and 192 to 222
  without the multiplication sign 215, and each has its small letter 32 further on.
  It stands for the built-in in the examples below, all of which are Latin-1 text.
\<close>

definition lower_latin1 :: "pystr \<Rightarrow> pystr" where
  "lower_latin1 w =
     map (\<lambda>c. if (65 \<le> c \<and> c \<le> 90) \<or> (192 \<le> c \<and> c \<le> 222 \<and> c \<noteq> 215) then c + 32 else c) w"

section \<open>The aggregator\<close>

text \<open>
  The \<^verbatim>\<open>while\<close> loop of \<^verbatim>\<open>predict\<close>, lines 86 to 99, on the variables
  \<^verbatim>\<open>total_posterior\<close>, \<^verbatim>\<open>n_variants\<close>, \<^verbatim>\<open>output["results"]\<close> and \<^verbatim>\<open>n_best\<close>.
  It returns the list as the loop leaves it, with the exception that left the loop, if
  any: \<open>StopIteration\<close> from \<open>nBestNext\<close> is caught inside and is a \<^verbatim>\<open>break\<close>; any
  other exception leaves the loop with the entries appended so far still in the list.
\<close>

function while_loop ::
  "'s translator \<Rightarrow> options \<Rightarrow> real \<Rightarrow> int \<Rightarrow> hypothesis list \<Rightarrow> 's
     \<Rightarrow> hypothesis list \<times> exn option" where
  "while_loop tr opts total_posterior n_variants res n_best =
     (if total_posterior < variants_mass opts \<and> n_variants < variants_number opts then
        (case nBestNext tr n_best of
           Inl StopIteration \<Rightarrow> (res, None)
         | Inl e \<Rightarrow> (res, Some e)
         | Inr (log_like, result, n_best') \<Rightarrow>
             (let posterior = exp (log_like - logLikTotal tr n_best') in
              while_loop tr opts (total_posterior + posterior) (n_variants + 1)
                (res @ [\<lparr>posterior = posterior,
                          pronunciation = join (str '' '') result\<rparr>]) n_best'))
      else (res, None))"
  by pat_completeness auto
termination
  by (relation "measure (\<lambda>(tr, opts, tot, n, res, n_best). nat (variants_number opts - n))")
     auto

text \<open>
  The body of \<^verbatim>\<open>for word in words\<close>, lines 78 to 103. \<open>TranslationFailure\<close>, from
  \<open>nBestInit\<close> or from inside the loop, is caught by the outer handler and the record
  is yielded as it is. Any other exception leaves the generator; a \<open>StopIteration\<close>
  raised by \<open>nBestInit\<close> leaves it as \<open>RuntimeError\<close>.
\<close>

definition predict_word :: "'s translator \<Rightarrow> options \<Rightarrow> pystr \<Rightarrow> exn + prediction" where
  "predict_word tr opts w =
     (case nBestInit tr w of
        Inl TranslationFailure \<Rightarrow> Inr \<lparr>word = w, results = []\<rparr>
      | Inl StopIteration \<Rightarrow> Inl RuntimeError
      | Inl e \<Rightarrow> Inl e
      | Inr n_best \<Rightarrow>
          (case while_loop tr opts 0 0 [] n_best of
             (res, None) \<Rightarrow> Inr \<lparr>word = w, results = res\<rparr>
           | (res, Some TranslationFailure) \<Rightarrow> Inr \<lparr>word = w, results = res\<rparr>
           | (res, Some e) \<Rightarrow> Inl e))"

text \<open>\<^verbatim>\<open>list(predict(words))\<close>: the records in order, or the first exception that
  leaves the generator.\<close>

fun predict :: "'s translator \<Rightarrow> options \<Rightarrow> pystr list \<Rightarrow> exn + prediction list" where
  "predict tr opts [] = Inr []"
| "predict tr opts (w # ws) =
     (case predict_word tr opts w of
        Inl e \<Rightarrow> Inl e
      | Inr out \<Rightarrow> (case predict tr opts ws of Inl e \<Rightarrow> Inl e | Inr outs \<Rightarrow> Inr (out # outs)))"

section \<open>The batch driver\<close>

text \<open>
  Lines 128 to 131: \<^verbatim>\<open>pred['results'][0]['pronunciation']\<close> for each record in
  order. Indexing an empty list with 0 raises \<open>IndexError\<close>.
\<close>

fun top_pronunciations :: "prediction list \<Rightarrow> exn + pystr list" where
  "top_pronunciations [] = Inr []"
| "top_pronunciations (pred # preds) =
     (case results pred of
        [] \<Rightarrow> Inl IndexError
      | r # _ \<Rightarrow>
          (case top_pronunciations preds of
             Inl e \<Rightarrow> Inl e
           | Inr phones \<Rightarrow> Inr (pronunciation r # phones)))"

text \<open>
  Lines 106 to 131. The two globals are assigned first, from the argument or from the
  defaults, and \<^verbatim>\<open>predict\<close> reads them.
\<close>

definition get_phones :: "'s host \<Rightarrow> pystr \<Rightarrow> options option \<Rightarrow> exn + pystr list" where
  "get_phones h utt translator_options =
     (let TRANSLATOR_OPTIONS =
            (case translator_options of
               None \<Rightarrow> Options (case G2P_MODEL h of None \<Rightarrow> SEQUITUR_MDL_PATH h | Some p \<Rightarrow> p)
             | Some opts \<Rightarrow> opts);
          TRANSLATOR = procureModel h TRANSLATOR_OPTIONS;
          words = map (\<lambda>w. normalize_word (str_lower h) w SUB_PATTERN) (split (strip utt))
      in case predict TRANSLATOR TRANSLATOR_OPTIONS words of
           Inl e \<Rightarrow> Inl e
         | Inr predictions \<Rightarrow> top_pronunciations predictions)"

text \<open>\<^verbatim>\<open>future.result()\<close> for each future in order: the values, or the first exception
  that a call raised.\<close>

fun gather :: "(exn + 'a) list \<Rightarrow> exn + 'a list" where
  "gather [] = Inr []"
| "gather (Inl e # rs) = Inl e"
| "gather (Inr x # rs) = (case gather rs of Inl e \<Rightarrow> Inl e | Inr xs \<Rightarrow> Inr (x # xs))"

text \<open>The string of line 192,
  \<^verbatim>\<open>'{}\t~ {} ~\n'.format(res[0].strip(), '\t'.join(res[1][:]))\<close>; 9 is the tab and 10
  the newline.\<close>

definition format_line :: "pystr \<Rightarrow> pystr list \<Rightarrow> pystr" where
  "format_line line phones = strip line @ [9] @ str ''~ '' @ join [9] phones @ str '' ~'' @ [10]"

text \<open>
  Lines 149 to 193. \<open>lines\<close> are the lines of the file at \<^verbatim>\<open>src_path\<close> as the
  iteration over the file gives them, and the result is the list of the strings
  written to \<^verbatim>\<open>out_path\<close>, one for each \<^verbatim>\<open>write\<close>. The pool refuses a worker count
  that is not positive. Each line is submitted as \<^verbatim>\<open>get_phones(line)\<close>, so the
  workers run with the default options whatever \<open>translator_options\<close> is; the pool is
  modelled by the calls in the order of submission, which is the order the results are
  read in. \<^verbatim>\<open>get_phones\<close> returns a list and never \<^verbatim>\<open>None\<close>, so the filter of line
  190 keeps every result. An exception of a call comes out of \<^verbatim>\<open>result()\<close> before
  anything is written.
\<close>

definition g2p_file :: "'s host \<Rightarrow> pystr list \<Rightarrow> int \<Rightarrow> options option \<Rightarrow> exn + pystr list" where
  "g2p_file h lines n_jobs translator_options =
     (if n_jobs \<le> 0 then Inl ValueError
      else
        (case gather (map (\<lambda>line. get_phones h line None) lines) of
           Inl e \<Rightarrow> Inl e
         | Inr phones \<Rightarrow> Inr (map (\<lambda>(line, ps). format_line line ps) (zip lines phones))))"

section \<open>Notions used to state the properties\<close>

text \<open>
  \<open>delivers tr s cs\<close>: called again and again from the cursor \<open>s\<close>, \<open>nBestNext\<close>
  returns the candidates \<open>cs\<close>, each with the cursor it leaves. \<open>cursor_after s cs\<close> is
  the cursor after them, and \<open>hypothesis_of tr c\<close> the entry that lines 93 to 97 append
  for the candidate \<open>c\<close>.
\<close>

fun delivers :: "'s translator \<Rightarrow> 's \<Rightarrow> (real \<times> pystr list \<times> 's) list \<Rightarrow> bool" where
  "delivers tr s [] = True"
| "delivers tr s (c # cs) = (nBestNext tr s = Inr c \<and> delivers tr (snd (snd c)) cs)"

fun cursor_after :: "'s \<Rightarrow> (real \<times> pystr list \<times> 's) list \<Rightarrow> 's" where
  "cursor_after s [] = s"
| "cursor_after s (c # cs) = cursor_after (snd (snd c)) cs"

definition hypothesis_of :: "'s translator \<Rightarrow> real \<times> pystr list \<times> 's \<Rightarrow> hypothesis" where
  "hypothesis_of tr c =
     \<lparr>posterior = exp (fst c - logLikTotal tr (snd (snd c))),
      pronunciation = join (str '' '') (fst (snd c))\<rparr>"

text \<open>
  \<open>bounds_open opts tot n ps\<close>: starting from the running total \<open>tot\<close> and the count
  \<open>n\<close>, neither bound of the loop is hit before any of the posteriors \<open>ps\<close> is added,
  nor after the last of them.
\<close>

fun bounds_open :: "options \<Rightarrow> real \<Rightarrow> int \<Rightarrow> real list \<Rightarrow> bool" where
  "bounds_open opts tot n [] = (tot < variants_mass opts \<and> n < variants_number opts)"
| "bounds_open opts tot n (p # ps) =
     (tot < variants_mass opts \<and> n < variants_number opts \<and> bounds_open opts (tot + p) (n + 1) ps)"

text \<open>
  The loop with a budget of iterations: \<open>None\<close> when the budget is used up before the
  loop has ended. It is the body of \<open>while_loop\<close>, run at most \<open>k\<close> times.
\<close>

fun while_loop_within ::
  "nat \<Rightarrow> 's translator \<Rightarrow> options \<Rightarrow> real \<Rightarrow> int \<Rightarrow> hypothesis list \<Rightarrow> 's
     \<Rightarrow> (hypothesis list \<times> exn option) option" where
  "while_loop_within k tr opts total_posterior n_variants res n_best =
     (if total_posterior < variants_mass opts \<and> n_variants < variants_number opts then
        (case k of
           0 \<Rightarrow> None
         | Suc k' \<Rightarrow>
            (case nBestNext tr n_best of
               Inl StopIteration \<Rightarrow> Some (res, None)
             | Inl e \<Rightarrow> Some (res, Some e)
             | Inr (log_like, result, n_best') \<Rightarrow>
                 (let posterior = exp (log_like - logLikTotal tr n_best') in
                  while_loop_within k' tr opts (total_posterior + posterior) (n_variants + 1)
                    (res @ [\<lparr>posterior = posterior,
                              pronunciation = join (str '' '') result\<rparr>]) n_best')))
      else Some (res, None))"

text \<open>
  \<open>line_predictions h line\<close>: the records that \<^verbatim>\<open>get_phones(line)\<close>, called as the pool
  calls it, gets from \<^verbatim>\<open>predict\<close>: the default options, the translator built for
  them, and the normalized words of the line.
\<close>

definition default_options :: "'s host \<Rightarrow> options" where
  "default_options h = Options (case G2P_MODEL h of None \<Rightarrow> SEQUITUR_MDL_PATH h | Some p \<Rightarrow> p)"

definition line_predictions :: "'s host \<Rightarrow> pystr \<Rightarrow> exn + prediction list" where
  "line_predictions h line =
     predict (procureModel h (default_options h)) (default_options h)
       (map (\<lambda>w. normalize_word (str_lower h) w SUB_PATTERN) (split (strip line)))"

text \<open>
  The output format as the specification words it: the trimmed line, a tab, the
  opening marker and a space, then every pronunciation followed by a tab, then the
  closing marker.
\<close>

definition spec_format_line :: "pystr \<Rightarrow> pystr list \<Rightarrow> pystr" where
  "spec_format_line line phones =
     strip line @ [9] @ str ''~ '' @ concat (map (\<lambda>p. p @ [9]) phones) @ str ''~''"

section \<open>A scripted translator for the examples\<close>

text \<open>
  A translator that plays a script: the cursor is the list of what the coming calls of
  \<open>nBestNext\<close> do, a candidate or an exception, and the end of the script is
  \<open>StopIteration\<close>. \<open>init\<close> gives the script for a word or the exception of
  \<open>nBestInit\<close>; \<open>logLikTotal\<close> is the constant \<open>best\<close>.
\<close>

type_synonym script = "(exn + real \<times> pystr list) list"

definition scripted :: "(pystr \<Rightarrow> exn + script) \<Rightarrow> real \<Rightarrow> script translator" where
  "scripted init best =
     \<lparr>nBestInit = init,
      nBestNext = (\<lambda>s. case s of
                          [] \<Rightarrow> Inl StopIteration
                        | Inl e # rest \<Rightarrow> Inl e
                        | Inr (ll, r) # rest \<Rightarrow> Inr (ll, r, rest)),
      logLikTotal = (\<lambda>s. best)\<rparr>"

text \<open>
  The translator of the examples: a word with the letter x (120) cannot be
  translated; any other word has one candidate, its letters one by one, with the
  log-likelihood \<open>-1\<close>, which is also \<open>logLikTotal\<close>.
\<close>

definition demo_translator :: "script translator" where
  "demo_translator =
     scripted (\<lambda>w. if 120 \<in> set w then Inl TranslationFailure
                    else Inr [Inr (-1, map (\<lambda>c. [c]) w)]) (-1)"

text \<open>
  A script of four candidates of equal log-likelihood \<open>-1\<close>; under \<open>logLikTotal = 0\<close>
  each has the posterior \<open>exp (-1)\<close>, a little more than a third.
\<close>

definition ka_script :: script where
  "ka_script =
     [Inr (- 1, [str ''k'', str ''a'']), Inr (- 1, [str ''k'', str ''o'']),
      Inr (- 1, [str ''g'', str ''a'']), Inr (- 1, [str ''g'', str ''o''])]"

definition demo_host :: "script host" where
  "demo_host =
     \<lparr>str_lower = lower_latin1, G2P_MODEL = None,
      SEQUITUR_MDL_PATH = str ''data/ipd_clean_slt2018.mdl'',
      procureModel = (\<lambda>opts. demo_translator)\<rparr>"


section \<open>Unfolding the loop\<close>

declare while_loop.simps [simp del]

lemma while_loop_exit:
  "\<not> (tot < variants_mass opts \<and> n < variants_number opts) \<Longrightarrow>
   while_loop tr opts tot n res n_best = (res, None)"
  by (subst while_loop.simps) auto

lemma while_loop_break:
  "tot < variants_mass opts \<Longrightarrow> n < variants_number opts \<Longrightarrow>
   nBestNext tr n_best = Inl StopIteration \<Longrightarrow>
   while_loop tr opts tot n res n_best = (res, None)"
  by (subst while_loop.simps) simp

lemma while_loop_raise:
  "tot < variants_mass opts \<Longrightarrow> n < variants_number opts \<Longrightarrow>
   nBestNext tr n_best = Inl e \<Longrightarrow> e \<noteq> StopIteration \<Longrightarrow>
   while_loop tr opts tot n res n_best = (res, Some e)"
  by (subst while_loop.simps) (cases e; simp)

lemma while_loop_next:
  "tot < variants_mass opts \<Longrightarrow> n < variants_number opts \<Longrightarrow>
   nBestNext tr n_best = Inr (log_like, result, n_best') \<Longrightarrow>
   while_loop tr opts tot n res n_best =
     while_loop tr opts (tot + exp (log_like - logLikTotal tr n_best')) (n + 1)
       (res @ [\<lparr>posterior = exp (log_like - logLikTotal tr n_best'),
                 pronunciation = join (str '' '') result\<rparr>]) n_best'"
  by (subst while_loop.simps) (simp add: Let_def)

lemmas while_loop_eval = while_loop_exit while_loop_break while_loop_raise while_loop_next

text \<open>
  Induction along the iterations of the loop, one case for each way an iteration can
  go: the test fails, \<open>nBestNext\<close> raises \<open>StopIteration\<close>, it raises something else,
  or it returns a candidate and the loop goes on.
\<close>

lemma while_loop_cases [case_names exit break raise step]:
  fixes P :: "'s translator \<Rightarrow> options \<Rightarrow> real \<Rightarrow> int \<Rightarrow> hypothesis list \<Rightarrow> 's \<Rightarrow> bool"
  assumes "\<And>tr opts tot n res n_best.
     \<not> (tot < variants_mass opts \<and> n < variants_number opts) \<Longrightarrow> P tr opts tot n res n_best"
    and "\<And>tr opts tot n res n_best.
     tot < variants_mass opts \<Longrightarrow> n < variants_number opts \<Longrightarrow>
     nBestNext tr n_best = Inl StopIteration \<Longrightarrow> P tr opts tot n res n_best"
    and "\<And>tr opts tot n res n_best e.
     tot < variants_mass opts \<Longrightarrow> n < variants_number opts \<Longrightarrow>
     nBestNext tr n_best = Inl e \<Longrightarrow> e \<noteq> StopIteration \<Longrightarrow> P tr opts tot n res n_best"
    and "\<And>tr opts tot n res n_best log_like result n_best'.
     tot < variants_mass opts \<Longrightarrow> n < variants_number opts \<Longrightarrow>
     nBestNext tr n_best = Inr (log_like, result, n_best') \<Longrightarrow>
     P tr opts (tot + exp (log_like - logLikTotal tr n_best')) (n + 1)
       (res @ [\<lparr>posterior = exp (log_like - logLikTotal tr n_best'),
                 pronunciation = join (str '' '') result\<rparr>]) n_best' \<Longrightarrow>
     P tr opts tot n res n_best"
  shows "P tr opts tot n res n_best"
proof (induction tr opts tot n res n_best rule: while_loop.induct)
  case (1 tr opts tot n res n_best)
  show ?case
  proof (cases "tot < variants_mass opts \<and> n < variants_number opts")
    case False
    then show ?thesis by (rule assms(1))
  next
    case guard: True
    show ?thesis
    proof (cases "nBestNext tr n_best")
      case (Inl e)
      with guard assms(2,3) show ?thesis by (cases "e = StopIteration") auto
    next
      case (Inr c)
      obtain ll r s' where c: "c = (ll, r, s')" by (cases c) auto
      from "1.IH" [OF guard Inr [unfolded c] refl refl refl] guard Inr c
      show ?thesis by (auto intro: assms(4))
    qed
  qed
qed

lemma predict_word_results:
  "predict_word tr opts w = Inr out \<Longrightarrow>
   results out = [] \<or>
   (\<exists>s. nBestInit tr w = Inr s \<and> results out = fst (while_loop tr opts 0 0 [] s))"
  by (auto simp: predict_word_def split: sum.splits exn.splits prod.splits option.splits)

section \<open>Invariants of the loop\<close>

lemma while_loop_length:
  "int (length (fst (while_loop tr opts tot n res n_best)))
     \<le> int (length res) + max 0 (variants_number opts - n)"
proof (induction tr opts tot n res n_best rule: while_loop_cases)
  case (step tr opts tot n res n_best log_like result n_best')
  then show ?case by (simp add: while_loop_next)
qed (simp_all add: while_loop_exit while_loop_break while_loop_raise)

lemma while_loop_butlast:
  fixes tr :: "'s translator" and opts :: options
  assumes "tot = sum_list (map posterior res)"
  shows "fst (while_loop tr opts tot n res s) = res \<or>
         sum_list (map posterior (butlast (fst (while_loop tr opts tot n res s))))
           < variants_mass opts"
  using assms
proof (induction tr opts tot n res s rule: while_loop_cases)
  case (step tr opts tot n res n_best log_like result n_best')
  let ?h = "\<lparr>posterior = exp (log_like - logLikTotal tr n_best'),
             pronunciation = join (str '' '') result\<rparr>"
  let ?rs = "fst (while_loop tr opts tot n res n_best)"
  have unfold: "while_loop tr opts tot n res n_best =
      while_loop tr opts (tot + posterior ?h) (n + 1) (res @ [?h]) n_best'"
    using step.hyps by (simp add: while_loop_next)
  have "tot + posterior ?h = sum_list (map posterior (res @ [?h]))"
    using step.prems by simp
  then have "?rs = res @ [?h] \<or> sum_list (map posterior (butlast ?rs)) < variants_mass opts"
    using step.IH unfold by simp
  then show ?case
  proof
    assume "?rs = res @ [?h]"
    then have "sum_list (map posterior (butlast ?rs)) = tot"
      using step.prems by simp
    with step.hyps(1) show ?thesis by simp
  next
    assume "sum_list (map posterior (butlast ?rs)) < variants_mass opts"
    then show ?thesis ..
  qed
qed (simp_all add: while_loop_exit while_loop_break while_loop_raise)

lemma while_loop_candidates:
  fixes tr :: "'s translator" and opts :: options
  shows "\<exists>cs. delivers tr s cs \<and>
           fst (while_loop tr opts tot n res s) = res @ map (hypothesis_of tr) cs"
proof (induction tr opts tot n res s rule: while_loop_cases)
  case (exit tr opts tot n res n_best)
  then have "delivers tr n_best [] \<and>
      fst (while_loop tr opts tot n res n_best) = res @ map (hypothesis_of tr) []"
    by (simp add: while_loop_exit)
  then show ?case by blast
next
  case (break tr opts tot n res n_best)
  then have "delivers tr n_best [] \<and>
      fst (while_loop tr opts tot n res n_best) = res @ map (hypothesis_of tr) []"
    by (simp add: while_loop_break)
  then show ?case by blast
next
  case (raise tr opts tot n res n_best e)
  then have "delivers tr n_best [] \<and>
      fst (while_loop tr opts tot n res n_best) = res @ map (hypothesis_of tr) []"
    by (simp add: while_loop_raise)
  then show ?case by blast
next
  case (step tr opts tot n res n_best log_like result n_best')
  let ?h = "\<lparr>posterior = exp (log_like - logLikTotal tr n_best'),
             pronunciation = join (str '' '') result\<rparr>"
  from step.IH obtain cs where cs: "delivers tr n_best' cs"
    and rs: "fst (while_loop tr opts (tot + exp (log_like - logLikTotal tr n_best')) (n + 1)
               (res @ [?h]) n_best') = (res @ [?h]) @ map (hypothesis_of tr) cs"
    by blast
  have "delivers tr n_best ((log_like, result, n_best') # cs)"
    using cs step.hyps(3) by simp
  moreover have "fst (while_loop tr opts tot n res n_best)
      = res @ map (hypothesis_of tr) ((log_like, result, n_best') # cs)"
    using rs step.hyps by (simp add: while_loop_next hypothesis_of_def)
  ultimately show ?case by blast
qed

text \<open>
  While the translator delivers candidates and neither bound is hit, the loop appends
  their entries and stands, with its test still true, at the cursor after them.
\<close>

lemma while_loop_delivered:
  fixes tr :: "'s translator" and opts :: options
  assumes "delivers tr s cs"
    and "bounds_open opts tot n (map (\<lambda>c. posterior (hypothesis_of tr c)) cs)"
  shows "\<exists>tot' n'. tot' < variants_mass opts \<and> n' < variants_number opts \<and>
           while_loop tr opts tot n res s =
             while_loop tr opts tot' n' (res @ map (hypothesis_of tr) cs) (cursor_after s cs)"
  using assms
proof (induction cs arbitrary: s tot n res)
  case Nil
  then show ?case by auto
next
  case (Cons c cs)
  obtain ll r s' where c: "c = (ll, r, s')" by (cases c) auto
  let ?p = "exp (ll - logLikTotal tr s')"
  from Cons.prems c have nxt: "nBestNext tr s = Inr (ll, r, s')" and del: "delivers tr s' cs"
    and g: "tot < variants_mass opts" "n < variants_number opts"
    and bo: "bounds_open opts (tot + ?p) (n + 1) (map (\<lambda>c. posterior (hypothesis_of tr c)) cs)"
    by (simp_all add: hypothesis_of_def)
  from Cons.IH [OF del bo, of "res @ [hypothesis_of tr c]"]
  obtain tot' n' where "tot' < variants_mass opts" "n' < variants_number opts"
    "while_loop tr opts (tot + ?p) (n + 1) (res @ [hypothesis_of tr c]) s' =
       while_loop tr opts tot' n' ((res @ [hypothesis_of tr c]) @ map (hypothesis_of tr) cs)
         (cursor_after s' cs)"
    by blast
  moreover have "while_loop tr opts tot n res s =
     while_loop tr opts (tot + ?p) (n + 1) (res @ [hypothesis_of tr c]) s'"
    using g nxt by (simp add: while_loop_next hypothesis_of_def c)
  ultimately show ?case using c by auto
qed

lemma while_loop_within_enough:
  fixes tr :: "'s translator" and opts :: options
  assumes "nat (variants_number opts - n) \<le> k"
  shows "while_loop_within k tr opts tot n res s = Some (while_loop tr opts tot n res s)"
  using assms
proof (induction tr opts tot n res s arbitrary: k rule: while_loop_cases)
  case (exit tr opts tot n res n_best)
  then show ?case by (auto simp: while_loop_exit)
next
  case (break tr opts tot n res n_best)
  then obtain k' where "k = Suc k'" by (cases k) auto
  with break show ?case by (simp add: while_loop_break)
next
  case (raise tr opts tot n res n_best e)
  then obtain k' where "k = Suc k'" by (cases k) auto
  with raise show ?case by (cases e) (simp_all add: while_loop_raise)
next
  case (step tr opts tot n res n_best log_like result n_best')
  then obtain k' where k: "k = Suc k'" by (cases k) auto
  with step.prems step.hyps have "nat (variants_number opts - (n + 1)) \<le> k'" by simp
  from step.IH [OF this] step.hyps k show ?case
    by (simp add: while_loop_next Let_def)
qed

section \<open>Facts about the batch driver\<close>

lemma get_phones_default:
  "get_phones h line None =
     (case line_predictions h line of
        Inl e \<Rightarrow> Inl e
      | Inr preds \<Rightarrow> top_pronunciations preds)"
  by (simp add: get_phones_def line_predictions_def default_options_def Let_def)

lemma top_pronunciations_nonempty:
  "\<forall>p\<in>set preds. results p \<noteq> [] \<Longrightarrow>
   top_pronunciations preds = Inr (map (\<lambda>p. pronunciation (hd (results p))) preds)"
  by (induction preds) (auto split: list.splits)

lemma gather_all_Inr:
  "\<forall>x\<in>set xs. f x = Inr (g x) \<Longrightarrow> gather (map f xs) = Inr (map g xs)"
  by (induction xs) auto

lemma map_zip_map_same:
  "map (\<lambda>(x, y). f x y) (zip xs (map g xs)) = map (\<lambda>x. f x (g x)) xs"
  by (induction xs) auto

section \<open>Evaluating the examples\<close>

lemma exp_minus_one_bounds: "1 / 3 \<le> exp (- 1 :: real)" "exp (- 1 :: real) \<le> 2 / 5"
proof -
  have "5 / 2 \<le> exp (1::real)"
    using exp_lower_Taylor_quadratic [of "1::real"] by simp
  then show "exp (- 1 :: real) \<le> 2 / 5" by (simp add: exp_minus field_simps)
  show "1 / 3 \<le> exp (- 1 :: real)" using exp_le by (simp add: exp_minus field_simps)
qed

lemmas eval_defs =
  get_phones_def g2p_file_def demo_host_def Options_def strip_def split_def isspace_def str_def
  normalize_word_def SUB_PATTERN_def ICE_ALPHABET_def lower_latin1_def predict_word_def
  demo_translator_def scripted_def VARIANTS_NUMBER_def VARIANTS_MASS_def format_line_def
  hypothesis_of_def ka_script_def default_options_def line_predictions_def

text \<open>
  With the default bounds 4 and 0.9 and the four candidates of \<open>ka_script\<close>, the loop
  stops after the third: the total is then \<open>3 * exp (-1)\<close>, above 0.9.
\<close>

lemma predict_word_ka_script:
  "predict_word (scripted (\<lambda>w. Inr ka_script) 0) (Options []) (str ''ka'')
   = Inr \<lparr>word = str ''ka'',
          results = [\<lparr>posterior = exp (- 1), pronunciation = str ''k a''\<rparr>,
                     \<lparr>posterior = exp (- 1), pronunciation = str ''k o''\<rparr>,
                     \<lparr>posterior = exp (- 1), pronunciation = str ''g a''\<rparr>]\<rparr>"
  using exp_minus_one_bounds
  by (simp add: eval_defs while_loop_eval)

section \<open>The claims\<close>

subsection \<open>The aggregator: bounds on the returned list\<close>

text \<open>
  C2. In every list of hypotheses that \<^verbatim>\<open>predict\<close> returns for a word, the posteriors
  of all entries but the last one sum to less than \<^verbatim>\<open>variants_mass\<close>: the bound is
  tested before a candidate is requested, so only the entry appended last can take
  the sum to the bound or beyond.
\<close>

theorem predict_word_mass_before_last:
  fixes tr :: "'s translator" and opts :: options
  assumes "predict_word tr opts w = Inr out" and "results out \<noteq> []"
  shows "sum_list (map posterior (butlast (results out))) < variants_mass opts"
proof -
  from predict_word_results [OF assms(1)] assms(2)
  obtain s where "results out = fst (while_loop tr opts 0 0 [] s)" by blast
  with while_loop_butlast [of 0 "[]" tr opts 0 s] assms(2) show ?thesis by simp
qed

theorem predict_word_mass_before_last_witness:
  "predict_word (scripted (\<lambda>w. Inr ka_script) 0) (Options []) (str ''ka'')
     = Inr \<lparr>word = str ''ka'',
            results = [\<lparr>posterior = exp (- 1), pronunciation = str ''k a''\<rparr>,
                       \<lparr>posterior = exp (- 1), pronunciation = str ''k o''\<rparr>,
                       \<lparr>posterior = exp (- 1), pronunciation = str ''g a''\<rparr>]\<rparr> \<and>
   exp (- 1) + exp (- 1) < variants_mass (Options []) \<and>
   \<not> exp (- 1) + exp (- 1) + exp (- 1) < variants_mass (Options [])"
proof -
  have "exp (- 1) + exp (- 1) < variants_mass (Options [])"
    using predict_word_mass_before_last [OF predict_word_ka_script] by simp
  moreover have "\<not> exp (- 1) + exp (- 1) + exp (- 1) < variants_mass (Options [])"
    using exp_minus_one_bounds by (simp add: Options_def VARIANTS_MASS_def)
  ultimately show ?thesis using predict_word_ka_script by simp
qed

text \<open>
  C3. For a limit \<^verbatim>\<open>variants_number\<close> that is not negative, the list of hypotheses
  that \<^verbatim>\<open>predict\<close> returns for a word has at most \<^verbatim>\<open>variants_number\<close> entries. This
  holds for every record that is yielded, so also for every word whose search
  succeeds.
\<close>

theorem predict_word_length_le_variants_number:
  fixes tr :: "'s translator" and opts :: options
  assumes "predict_word tr opts w = Inr out" and "0 \<le> variants_number opts"
  shows "int (length (results out)) \<le> variants_number opts"
proof -
  from predict_word_results [OF assms(1)] show ?thesis
  proof
    assume "results out = []"
    with assms(2) show ?thesis by simp
  next
    assume "\<exists>s. nBestInit tr w = Inr s \<and> results out = fst (while_loop tr opts 0 0 [] s)"
    then obtain s where "results out = fst (while_loop tr opts 0 0 [] s)" by blast
    with while_loop_length [of tr opts 0 0 "[]" s] assms(2) show ?thesis by simp
  qed
qed

theorem predict_word_length_le_variants_number_witness:
  "predict_word (scripted (\<lambda>w. Inr ka_script) 0) (Options []) (str ''ka'')
     = Inr \<lparr>word = str ''ka'',
            results = [\<lparr>posterior = exp (- 1), pronunciation = str ''k a''\<rparr>,
                       \<lparr>posterior = exp (- 1), pronunciation = str ''k o''\<rparr>,
                       \<lparr>posterior = exp (- 1), pronunciation = str ''g a''\<rparr>]\<rparr> \<and>
   0 \<le> variants_number (Options []) \<and> (3::int) \<le> variants_number (Options [])"
proof -
  have nonneg: "0 \<le> variants_number (Options [])"
    by (simp add: Options_def VARIANTS_NUMBER_def)
  from predict_word_length_le_variants_number [OF predict_word_ka_script nonneg]
  have "(3::int) \<le> variants_number (Options [])" by simp
  with nonneg predict_word_ka_script show ?thesis by simp
qed

subsection \<open>The aggregator: posteriors\<close>

text \<open>
  C4. When the search for a word starts, the hypotheses that \<^verbatim>\<open>predict\<close> returns are,
  in order, the entries for candidates that \<^verbatim>\<open>nBestNext\<close> delivered one after the
  other from the initial cursor, and the posterior of each is
  \<^verbatim>\<open>exp(log_like - n_best.logLikTotal)\<close> for that candidate's log-likelihood and the
  cursor as the call left it. In particular, when the first candidate's log-likelihood
  equals \<^verbatim>\<open>logLikTotal\<close>, the first hypothesis has the posterior 1.
\<close>

theorem predict_word_posterior:
  fixes tr :: "'s translator" and opts :: options
  assumes "nBestInit tr w = Inr s" and "predict_word tr opts w = Inr out"
  shows "\<exists>cs. delivers tr s cs \<and> length (results out) = length cs \<and>
           (\<forall>i<length cs. posterior (results out ! i)
                = exp (fst (cs ! i) - logLikTotal tr (snd (snd (cs ! i))))) \<and>
           (cs \<noteq> [] \<and> fst (hd cs) = logLikTotal tr (snd (snd (hd cs)))
              \<longrightarrow> posterior (hd (results out)) = 1)"
proof -
  from assms have "results out = fst (while_loop tr opts 0 0 [] s)"
    by (auto simp: predict_word_def split: prod.splits option.splits exn.splits)
  with while_loop_candidates [of tr s opts 0 0 "[]"]
  obtain cs where cs: "delivers tr s cs" and rs: "results out = map (hypothesis_of tr) cs"
    by auto
  have "posterior (hd (results out)) = 1"
    if "cs \<noteq> []" "fst (hd cs) = logLikTotal tr (snd (snd (hd cs)))"
    using that rs by (cases cs) (simp_all add: hypothesis_of_def)
  with cs rs show ?thesis by (auto simp: hypothesis_of_def)
qed

theorem predict_word_posterior_witness:
  "nBestInit demo_translator (str ''ab'') = Inr [Inr (- 1, [str ''a'', str ''b''])] \<and>
   predict_word demo_translator (Options []) (str ''ab'')
     = Inr \<lparr>word = str ''ab'', results = [\<lparr>posterior = 1, pronunciation = str ''a b''\<rparr>]\<rparr> \<and>
   (\<exists>cs. delivers demo_translator [Inr (- 1, [str ''a'', str ''b''])] cs \<and>
          length [\<lparr>posterior = 1 :: real, pronunciation = str ''a b''\<rparr>] = length cs \<and>
          (\<forall>i<length cs. posterior ([\<lparr>posterior = 1 :: real, pronunciation = str ''a b''\<rparr>] ! i)
               = exp (fst (cs ! i) - logLikTotal demo_translator (snd (snd (cs ! i))))) \<and>
          (cs \<noteq> [] \<and> fst (hd cs) = logLikTotal demo_translator (snd (snd (hd cs)))
             \<longrightarrow> posterior (hd [\<lparr>posterior = 1 :: real, pronunciation = str ''a b''\<rparr>]) = 1))"
proof -
  have init: "nBestInit demo_translator (str ''ab'') = Inr [Inr (- 1, [str ''a'', str ''b''])]"
    by (simp add: eval_defs)
  have run: "predict_word demo_translator (Options []) (str ''ab'')
     = Inr \<lparr>word = str ''ab'', results = [\<lparr>posterior = 1, pronunciation = str ''a b''\<rparr>]\<rparr>"
    by (simp add: eval_defs while_loop_eval)
  from predict_word_posterior [OF init run] init run show ?thesis by simp
qed


subsection \<open>The aggregator: failures and exhaustion\<close>

text \<open>
  C5. If \<^verbatim>\<open>nBestInit\<close> raises \<^verbatim>\<open>TranslationFailure\<close> for a word, \<^verbatim>\<open>predict\<close> yields
  the record of that word with an empty list of results; the exception does not leave
  \<^verbatim>\<open>predict\<close>, which goes on with the words that follow.
\<close>

theorem predict_word_init_failure:
  fixes tr :: "'s translator" and opts :: options
  assumes "nBestInit tr w = Inl TranslationFailure"
  shows "predict_word tr opts w = Inr \<lparr>word = w, results = []\<rparr> \<and>
         predict tr opts (w # ws) =
           (case predict tr opts ws of
              Inl e \<Rightarrow> Inl e
            | Inr outs \<Rightarrow> Inr (\<lparr>word = w, results = []\<rparr> # outs))"
  using assms by (simp add: predict_word_def)

theorem predict_word_init_failure_witness:
  "nBestInit demo_translator (str ''x'') = Inl TranslationFailure \<and>
   predict_word demo_translator (Options []) (str ''x'') = Inr \<lparr>word = str ''x'', results = []\<rparr> \<and>
   predict demo_translator (Options []) [str ''x'', str ''ab'']
     = Inr [\<lparr>word = str ''x'', results = []\<rparr>,
            \<lparr>word = str ''ab'', results = [\<lparr>posterior = 1, pronunciation = str ''a b''\<rparr>]\<rparr>]"
proof -
  have init: "nBestInit demo_translator (str ''x'') = Inl TranslationFailure"
    by (simp add: eval_defs)
  have rest: "predict demo_translator (Options []) [str ''ab'']
     = Inr [\<lparr>word = str ''ab'', results = [\<lparr>posterior = 1, pronunciation = str ''a b''\<rparr>]\<rparr>]"
    by (simp add: eval_defs while_loop_eval)
  from predict_word_init_failure [OF init, of "Options []" "[str ''ab'']"] init rest
  show ?thesis by simp
qed

text \<open>
  C6. If the search for a word starts, \<^verbatim>\<open>nBestNext\<close> delivers the candidates \<open>cs\<close>
  with neither bound of the loop hit before or after any of them, and the next call
  raises \<^verbatim>\<open>StopIteration\<close>, then \<^verbatim>\<open>predict\<close> yields the record with exactly the
  entries of \<open>cs\<close>; the exhaustion is no error and does not leave \<^verbatim>\<open>predict\<close>.
\<close>

theorem predict_word_exhausted:
  fixes tr :: "'s translator" and opts :: options
  assumes "nBestInit tr w = Inr s" and "delivers tr s cs"
    and "bounds_open opts 0 0 (map (\<lambda>c. posterior (hypothesis_of tr c)) cs)"
    and "nBestNext tr (cursor_after s cs) = Inl StopIteration"
  shows "predict_word tr opts w = Inr \<lparr>word = w, results = map (hypothesis_of tr) cs\<rparr>"
proof -
  from while_loop_delivered [OF assms(2,3), of "[]"] assms(4)
  have "while_loop tr opts 0 0 [] s = (map (hypothesis_of tr) cs, None)"
    by (auto simp: while_loop_break)
  with assms(1) show ?thesis by (simp add: predict_word_def)
qed

theorem predict_word_exhausted_witness:
  "nBestInit (scripted (\<lambda>w. Inr (take 2 ka_script)) 0) (str ''ka'') = Inr (take 2 ka_script) \<and>
   delivers (scripted (\<lambda>w. Inr (take 2 ka_script)) 0) (take 2 ka_script)
     [(- 1, [str ''k'', str ''a''], drop 1 (take 2 ka_script)), (- 1, [str ''k'', str ''o''], [])] \<and>
   bounds_open (Options []) 0 0 [exp (- 1), exp (- 1)] \<and>
   nBestNext (scripted (\<lambda>w. Inr (take 2 ka_script)) 0) [] = Inl StopIteration \<and>
   predict_word (scripted (\<lambda>w. Inr (take 2 ka_script)) 0) (Options []) (str ''ka'')
     = Inr \<lparr>word = str ''ka'',
            results = [\<lparr>posterior = exp (- 1), pronunciation = str ''k a''\<rparr>,
                       \<lparr>posterior = exp (- 1), pronunciation = str ''k o''\<rparr>]\<rparr>"
proof -
  let ?tr = "scripted (\<lambda>w. Inr (take 2 ka_script)) 0"
  let ?cs = "[(- 1, [str ''k'', str ''a''], drop 1 (take 2 ka_script)),
              (- 1 :: real, [str ''k'', str ''o''], [] :: script)]"
  have init: "nBestInit ?tr (str ''ka'') = Inr (take 2 ka_script)"
    by (simp add: scripted_def)
  have del: "delivers ?tr (take 2 ka_script) ?cs"
    by (simp add: scripted_def ka_script_def)
  have posts: "map (\<lambda>c. posterior (hypothesis_of ?tr c)) ?cs = [exp (- 1), exp (- 1)]"
    by (simp add: hypothesis_of_def scripted_def)
  have open_bounds: "bounds_open (Options []) 0 0 [exp (- 1), exp (- 1)]"
    using exp_minus_one_bounds by (simp add: Options_def VARIANTS_NUMBER_def VARIANTS_MASS_def)
  have stop: "nBestNext ?tr (cursor_after (take 2 ka_script) ?cs) = Inl StopIteration"
    by (simp add: scripted_def)
  have hyps: "map (hypothesis_of ?tr) ?cs
      = [\<lparr>posterior = exp (- 1), pronunciation = str ''k a''\<rparr>,
         \<lparr>posterior = exp (- 1), pronunciation = str ''k o''\<rparr>]"
    by (simp add: hypothesis_of_def scripted_def str_def)
  from predict_word_exhausted [OF init del open_bounds [folded posts] stop]
  have "predict_word ?tr (Options []) (str ''ka'')
     = Inr \<lparr>word = str ''ka'',
            results = [\<lparr>posterior = exp (- 1), pronunciation = str ''k a''\<rparr>,
                       \<lparr>posterior = exp (- 1), pronunciation = str ''k o''\<rparr>]\<rparr>"
    by (simp only: hyps)
  moreover have "nBestNext ?tr [] = Inl StopIteration" by (simp add: scripted_def)
  ultimately show ?thesis using init del open_bounds by blast
qed

text \<open>
  C10. If the search for a word starts, \<^verbatim>\<open>nBestNext\<close> delivers one or more candidates
  \<open>cs\<close> with neither bound of the loop hit, and the next call raises
  \<^verbatim>\<open>TranslationFailure\<close>, then \<^verbatim>\<open>predict\<close> still yields the record of the word, with
  the entries of \<open>cs\<close> in it: the handler of line 101 covers the whole loop, and the
  exception does not leave \<^verbatim>\<open>predict\<close>.
\<close>

theorem predict_word_failure_keeps_partial:
  fixes tr :: "'s translator" and opts :: options
  assumes "nBestInit tr w = Inr s" and "delivers tr s cs" and "cs \<noteq> []"
    and "bounds_open opts 0 0 (map (\<lambda>c. posterior (hypothesis_of tr c)) cs)"
    and "nBestNext tr (cursor_after s cs) = Inl TranslationFailure"
  shows "predict_word tr opts w = Inr \<lparr>word = w, results = map (hypothesis_of tr) cs\<rparr>"
proof -
  from while_loop_delivered [OF assms(2,4), of "[]"] assms(5)
  have "while_loop tr opts 0 0 [] s = (map (hypothesis_of tr) cs, Some TranslationFailure)"
    by (auto simp: while_loop_raise)
  with assms(1) show ?thesis by (simp add: predict_word_def)
qed

theorem predict_word_failure_keeps_partial_witness:
  "nBestInit (scripted (\<lambda>w. Inr [Inr (- 1, [str ''k'', str ''a'']), Inl TranslationFailure]) 0)
     (str ''ka'') = Inr [Inr (- 1, [str ''k'', str ''a'']), Inl TranslationFailure] \<and>
   delivers (scripted (\<lambda>w. Inr [Inr (- 1, [str ''k'', str ''a'']), Inl TranslationFailure]) 0)
     [Inr (- 1, [str ''k'', str ''a'']), Inl TranslationFailure]
     [(- 1, [str ''k'', str ''a''], [Inl TranslationFailure])] \<and>
   bounds_open (Options []) 0 0 [exp (- 1)] \<and>
   nBestNext (scripted (\<lambda>w. Inr [Inr (- 1, [str ''k'', str ''a'']), Inl TranslationFailure]) 0)
     [Inl TranslationFailure] = Inl TranslationFailure \<and>
   predict_word (scripted (\<lambda>w. Inr [Inr (- 1, [str ''k'', str ''a'']), Inl TranslationFailure]) 0)
     (Options []) (str ''ka'')
     = Inr \<lparr>word = str ''ka'',
            results = [\<lparr>posterior = exp (- 1), pronunciation = str ''k a''\<rparr>]\<rparr>"
proof -
  let ?sc = "[Inr (- 1, [str ''k'', str ''a'']), Inl TranslationFailure] :: script"
  let ?tr = "scripted (\<lambda>w. Inr ?sc) 0"
  let ?cs = "[(- 1 :: real, [str ''k'', str ''a''], [Inl TranslationFailure] :: script)]"
  have init: "nBestInit ?tr (str ''ka'') = Inr ?sc"
    by (simp add: scripted_def)
  have del: "delivers ?tr ?sc ?cs"
    by (simp add: scripted_def)
  have nonempty: "?cs \<noteq> []" by simp
  have posts: "map (\<lambda>c. posterior (hypothesis_of ?tr c)) ?cs = [exp (- 1)]"
    by (simp add: hypothesis_of_def scripted_def)
  have open_bounds: "bounds_open (Options []) 0 0 [exp (- 1)]"
    using exp_minus_one_bounds by (simp add: Options_def VARIANTS_NUMBER_def VARIANTS_MASS_def)
  have fail: "nBestNext ?tr (cursor_after ?sc ?cs) = Inl TranslationFailure"
    by (simp add: scripted_def)
  have hyps: "map (hypothesis_of ?tr) ?cs
      = [\<lparr>posterior = exp (- 1), pronunciation = str ''k a''\<rparr>]"
    by (simp add: hypothesis_of_def scripted_def str_def)
  from predict_word_failure_keeps_partial
         [OF init del nonempty open_bounds [folded posts] fail]
  have "predict_word ?tr (Options []) (str ''ka'')
     = Inr \<lparr>word = str ''ka'',
            results = [\<lparr>posterior = exp (- 1), pronunciation = str ''k a''\<rparr>]\<rparr>"
    by (simp only: hyps)
  moreover have "nBestNext ?tr [Inl TranslationFailure] = Inl TranslationFailure"
    by (simp add: scripted_def)
  ultimately show ?thesis using init del open_bounds by blast
qed

subsection \<open>The aggregator: termination\<close>

text \<open>
  C7. For every translator whose calls return, the loop of \<^verbatim>\<open>predict\<close> ends: run with
  a budget of \<^verbatim>\<open>variants_number\<close> iterations (none if the limit is negative), it ends
  within the budget, with the result of the loop. Every iteration that goes on adds
  one to \<^verbatim>\<open>n_variants\<close>, which is also the measure under which \<open>while_loop\<close> is a
  total function.
\<close>

theorem while_loop_within_variants_number:
  fixes tr :: "'s translator" and opts :: options
  shows "while_loop_within (nat (variants_number opts)) tr opts 0 0 [] s
           = Some (while_loop tr opts 0 0 [] s)"
  by (rule while_loop_within_enough) simp


subsection \<open>Normalization\<close>

text \<open>
  C8. \<^verbatim>\<open>normalize_word\<close> lowercases the token and then keeps exactly the characters
  that belong to the alphabet of the pattern, in order; nothing may be left. With the
  configured alphabet, the token of the code points 72, 250, 115, 33 (H, u with an
  acute accent, s and an exclamation mark) becomes the string of 104, 250, 115; with
  the alphabet \<^verbatim>\<open>"abc"\<close>, which has neither x nor 7, \<^verbatim>\<open>"X7"\<close> becomes the empty string.
\<close>

theorem normalize_word_filter:
  "normalize_word lower w (NegatedClass alphabet) = filter (\<lambda>c. c \<in> set alphabet) (lower w) \<and>
   normalize_word lower_latin1 [72, 250, 115, 33] SUB_PATTERN = [104, 250, 115] \<and>
   normalize_word lower_latin1 (str ''X7'') (NegatedClass (str ''abc'')) = []"
  by (simp add: normalize_word_def lower_latin1_def SUB_PATTERN_def ICE_ALPHABET_def str_def)

subsection \<open>The batch driver\<close>

text \<open>
  C1. The claim is that a word whose translation fails does not make \<^verbatim>\<open>get_phones\<close>
  or \<^verbatim>\<open>g2p_file\<close> raise. On the code it does: in the utterance \<^verbatim>\<open>"a x"\<close> the demo
  translator fails on the second word, \<^verbatim>\<open>predict\<close> yields the record of that word with
  no results, and line 130 indexes the empty list, so \<^verbatim>\<open>get_phones\<close> raises
  \<^verbatim>\<open>IndexError\<close>; \<^verbatim>\<open>g2p_file\<close> on a file with such a line raises it too and writes
  nothing, not even for the line that could be translated.
\<close>

theorem get_phones_raises_on_failed_word:
  "predict demo_translator (default_options demo_host) [str ''a'', str ''x'']
     = Inr [\<lparr>word = str ''a'', results = [\<lparr>posterior = 1, pronunciation = str ''a''\<rparr>]\<rparr>,
            \<lparr>word = str ''x'', results = []\<rparr>] \<and>
   get_phones demo_host (str ''a x'') None = Inl IndexError \<and>
   g2p_file demo_host [str ''ab d'' @ [10], str ''a x'' @ [10]] 16 None = Inl IndexError"
  by (simp add: eval_defs while_loop_eval)

text \<open>
  C9, as stated, fails on the code: the specification's format has a tab between the
  last pronunciation and the closing marker, and the code writes a space there. For the
  one line \<^verbatim>\<open>"ab d\n"\<close>, whose words have the top pronunciations \<^verbatim>\<open>"a b"\<close> and \<^verbatim>\<open>"d"\<close>,
  the code writes \<^verbatim>\<open>"ab d\t~ a b\td ~\n"\<close>, which is not the line of the specification.
\<close>

theorem g2p_file_spec_format_counterexample:
  "get_phones demo_host (str ''ab d'' @ [10]) None = Inr [str ''a b'', str ''d''] \<and>
   g2p_file demo_host [str ''ab d'' @ [10]] 16 None
     = Inr [str ''ab d'' @ [9] @ str ''~ a b'' @ [9] @ str ''d ~'' @ [10]] \<and>
   g2p_file demo_host [str ''ab d'' @ [10]] 16 None
     \<noteq> Inr [spec_format_line (str ''ab d'' @ [10]) [str ''a b'', str ''d''] @ [10]]"
  by (simp add: eval_defs while_loop_eval spec_format_line_def)

text \<open>
  C9, amended. For a positive number of jobs and a file in which every word of every
  line gets a hypothesis or more from \<^verbatim>\<open>predict\<close>, \<^verbatim>\<open>g2p_file\<close> writes one string for
  each line, in the order of the lines: the stripped line, a tab, \<^verbatim>\<open>~\<close> and a
  space, the top-ranked pronunciation of each word of the line joined by tabs, then a
  space, \<^verbatim>\<open>~\<close> and a newline. Lower-ranked hypotheses are not written.
\<close>

theorem g2p_file_writes:
  fixes h :: "'s host"
  assumes "0 < n_jobs"
    and "\<forall>line\<in>set lines. \<exists>preds. line_predictions h line = Inr preds \<and>
                                     (\<forall>p\<in>set preds. results p \<noteq> [])"
  shows "g2p_file h lines n_jobs translator_options =
     Inr (map (\<lambda>line. strip line @ [9] @ str ''~ '' @
                 join [9] (map (\<lambda>p. pronunciation (hd (results p)))
                            (projr (line_predictions h line)))
                 @ str '' ~'' @ [10]) lines)"
proof -
  let ?tops = "\<lambda>line. map (\<lambda>p. pronunciation (hd (results p))) (projr (line_predictions h line))"
  have "get_phones h line None = Inr (?tops line)" if "line \<in> set lines" for line
  proof -
    from assms(2) that obtain preds where preds: "line_predictions h line = Inr preds"
      and ne: "\<forall>p\<in>set preds. results p \<noteq> []" by blast
    from top_pronunciations_nonempty [OF ne] preds show ?thesis
      by (simp add: get_phones_default)
  qed
  then have "gather (map (\<lambda>line. get_phones h line None) lines) = Inr (map ?tops lines)"
    by (intro gather_all_Inr) simp
  with assms(1) show ?thesis
    by (simp add: g2p_file_def format_line_def map_zip_map_same)
qed

theorem g2p_file_writes_witness:
  "(0::int) < 16 \<and>
   line_predictions demo_host (str '' Ab D7'' @ [10])
     = Inr [\<lparr>word = str ''ab'', results = [\<lparr>posterior = 1, pronunciation = str ''a b''\<rparr>]\<rparr>,
            \<lparr>word = str ''d'', results = [\<lparr>posterior = 1, pronunciation = str ''d''\<rparr>]\<rparr>] \<and>
   line_predictions demo_host [10] = Inr [] \<and>
   g2p_file demo_host [str '' Ab D7'' @ [10], [10]] 16 None
     = Inr [str ''Ab D7'' @ [9] @ str ''~ a b'' @ [9] @ str ''d ~'' @ [10],
            [9] @ str ''~  ~'' @ [10]]"
proof -
  have first: "line_predictions demo_host (str '' Ab D7'' @ [10])
      = Inr [\<lparr>word = str ''ab'', results = [\<lparr>posterior = 1, pronunciation = str ''a b''\<rparr>]\<rparr>,
             \<lparr>word = str ''d'', results = [\<lparr>posterior = 1, pronunciation = str ''d''\<rparr>]\<rparr>]"
    by (simp add: eval_defs while_loop_eval)
  have second: "line_predictions demo_host [10] = Inr []"
    by (simp add: eval_defs)
  have jobs: "(0::int) < 16" by simp
  have ok: "\<forall>line\<in>set [str '' Ab D7'' @ [10], [10]].
      \<exists>preds. line_predictions demo_host line = Inr preds \<and> (\<forall>p\<in>set preds. results p \<noteq> [])"
    using first second by simp
  from g2p_file_writes [OF jobs ok, of None]
  have "g2p_file demo_host [str '' Ab D7'' @ [10], [10]] 16 None
     = Inr [str ''Ab D7'' @ [9] @ str ''~ a b'' @ [9] @ str ''d ~'' @ [10],
            [9] @ str ''~  ~'' @ [10]]"
    by (simp add: first second) (simp_all add: strip_def isspace_def str_def)
  with jobs first second show ?thesis by blast
qed


end
